theory Spec2Isabelle
  imports Main
begin

section \<open>Data model (src/types.ts)\<close>

text \<open>
  JavaScript strings are modelled as \<open>string\<close>: one \<open>char\<close> stands for one UTF-16 code
  unit, of which \<open>char\<close> has the first 256. The listener and the word service deal in
  the letters A to Z, which both alphabets share.
\<close>

datatype LetterState = INITIAL | CORRECT | PRESENT | ABSENT

record TileData =
  char :: string
  state :: LetterState

type_synonym GridData = "TileData list list"

datatype GameStatus = LOADING | PLAYING | VALIDATING | WON | LOST

section \<open>The state of the App component (src/App.tsx, lines 9-25)\<close>

definition MAX_GUESSES :: nat where
  "MAX_GUESSES = 5"

definition WORD_LENGTH :: nat where
  "WORD_LENGTH = 5"

text \<open>One field per \<open>useState\<close> hook, in the order of the source.\<close>

record GameState =
  secretWord :: string
  grid :: GridData
  currentRow :: nat
  currentCol :: nat
  gameStatus :: GameStatus
  shakeRow :: bool
  message :: "string option"
  isDarkMode :: bool
  letterStates :: "string \<rightharpoonup> LetterState"

text \<open>The values the hooks start from, before \<open>initGame\<close> has run.\<close>

definition initialState :: GameState where
  "initialState =
     \<lparr>secretWord = '''', grid = [], currentRow = 0, currentCol = 0, gameStatus = LOADING,
      shakeRow = False, message = None, isDarkMode = False, letterStates = Map.empty\<rparr>"

text \<open>
  What a handler can end in instead of a new state. \<open>TypeError\<close> is the exception that
  JavaScript throws when the code reads a property of, or spreads, \<open>undefined\<close> (a row
  index beyond the grid, a tile index beyond the row). \<open>SparseRow\<close> marks an assignment
  \<open>newRow[i] = tile\<close> with \<open>i\<close> beyond the end of the row: JavaScript pads the array with
  holes there and goes on; rows are dense lists here, so the run leaves the model at
  that point.
\<close>

datatype error = TypeError | SparseRow

text \<open>
  The word service (\<open>./services/gemini\<close>) is imported by App.tsx and is not part of the
  sources; its answers are a parameter of the model. \<open>None\<close> is a promise that does not
  resolve (rejected or forever pending), \<open>Some\<close> the value it resolves with.
\<close>

record WordProvider =
  fetchRandomWord :: "nat \<Rightarrow> string option"
  validateWordExistence :: "string \<Rightarrow> bool option"

section \<open>JavaScript array and string primitives used by the handlers\<close>

text \<open>\<open>arr[i] = v\<close> on a dense array: in range it overwrites, at the end it appends.\<close>

definition assignAt :: "'a list \<Rightarrow> nat \<Rightarrow> 'a \<Rightarrow> error + 'a list" where
  "assignAt arr i v =
     (if i < length arr then Inr (arr[i := v])
      else if i = length arr then Inr (arr @ [v])
      else Inl SparseRow)"

text \<open>\<open>str.split('')\<close>: one string per code unit.\<close>

definition js_split :: "string \<Rightarrow> string list" where
  "js_split str = map (\<lambda>c. [c]) str"

text \<open>\<open>arr.join('')\<close>.\<close>

definition js_join :: "string list \<Rightarrow> string" where
  "js_join arr = concat arr"

text \<open>\<open>arr.indexOf(x)\<close>: the first index holding \<open>x\<close>; \<open>None\<close> is the source's \<open>-1\<close>.\<close>

fun indexOf :: "'a list \<Rightarrow> 'a \<Rightarrow> nat option" where
  "indexOf [] x = None"
| "indexOf (y # ys) x = (if y = x then Some 0 else map_option Suc (indexOf ys x))"

section \<open>initGame (lines 29-47)\<close>

text \<open>The part before \<open>await fetchRandomWord(WORD_LENGTH)\<close>.\<close>

definition initGame_begin :: "GameState \<Rightarrow> GameState" where
  "initGame_begin s =
     s\<lparr>gameStatus := LOADING, message := None, currentRow := 0, currentCol := 0,
       shakeRow := False, letterStates := Map.empty,
       grid := replicate MAX_GUESSES
                 (replicate WORD_LENGTH \<lparr>char = '''', state = INITIAL\<rparr>)\<rparr>"

text \<open>The part after the \<open>await\<close>, run with the word the promise resolved with.\<close>

definition initGame_resume :: "string \<Rightarrow> GameState \<Rightarrow> GameState" where
  "initGame_resume word s = s\<lparr>secretWord := word, gameStatus := PLAYING\<rparr>"

definition initGame :: "WordProvider \<Rightarrow> GameState \<Rightarrow> GameState" where
  "initGame P s =
     (let s1 = initGame_begin s
      in case fetchRandomWord P WORD_LENGTH of
           None \<Rightarrow> s1
         | Some word \<Rightarrow> initGame_resume word s1)"

section \<open>handleKeyInput and handleDelete (lines 56-83)\<close>

definition handleKeyInput :: "string \<Rightarrow> GameState \<Rightarrow> error + GameState" where
  "handleKeyInput key s =
     (if gameStatus s \<noteq> PLAYING then Inr s
      else if currentCol s \<ge> WORD_LENGTH then Inr s
      else if currentRow s \<ge> length (grid s) then Inl TypeError
      else case assignAt (grid s ! currentRow s) (currentCol s)
                  \<lparr>char = key, state = INITIAL\<rparr> of
             Inl e \<Rightarrow> Inl e
           | Inr newRow \<Rightarrow>
               Inr (s\<lparr>grid := (grid s)[currentRow s := newRow],
                      currentCol := currentCol s + 1\<rparr>))"

definition handleDelete :: "GameState \<Rightarrow> error + GameState" where
  "handleDelete s =
     (if gameStatus s \<noteq> PLAYING then Inr s
      else if currentCol s \<le> 0 then Inr s
      else if currentRow s \<ge> length (grid s) then Inl TypeError
      else case assignAt (grid s ! currentRow s) (currentCol s - 1)
                  \<lparr>char = '''', state = INITIAL\<rparr> of
             Inl e \<Rightarrow> Inl e
           | Inr newRow \<Rightarrow>
               Inr (s\<lparr>grid := (grid s)[currentRow s := newRow],
                      currentCol := currentCol s - 1\<rparr>))"

section \<open>Evaluating a guess (handleEnter, lines 111-137)\<close>

text \<open>
  First pass, \<open>guessArr.forEach((char, i) => ...)\<close>: the second argument is the part of
  \<open>guessArr\<close> still to visit, \<open>i\<close> the index of its head. \<open>secretArr[i]\<close> beyond the end of
  \<open>secretArr\<close> is \<open>undefined\<close> and equals no string; \<open>rowTiles[i].state = ...\<close> beyond the
  end of \<open>rowTiles\<close> throws. The write \<open>guessArr[i] = ''\<close> changes an element that
  \<open>forEach\<close> has already passed and that nothing reads afterwards.
\<close>

fun firstPass ::
  "nat \<Rightarrow> string list \<Rightarrow> TileData list \<times> string list \<Rightarrow> error + TileData list \<times> string list"
where
  "firstPass i [] (rowTiles, secretArr) = Inr (rowTiles, secretArr)"
| "firstPass i (ch # rest) (rowTiles, secretArr) =
     (if i < length secretArr \<and> ch = secretArr ! i then
        (if i < length rowTiles then
           firstPass (Suc i) rest
             (rowTiles[i := (rowTiles ! i)\<lparr>state := CORRECT\<rparr>], secretArr[i := ''''])
         else Inl TypeError)
      else firstPass (Suc i) rest (rowTiles, secretArr))"

text \<open>
  Second pass, \<open>rowTiles.forEach((tile, i) => ...)\<close>: the tiles are visited from left to
  right, \<open>secretArr\<close> is threaded through.
\<close>

fun secondPass :: "TileData list \<Rightarrow> string list \<Rightarrow> TileData list" where
  "secondPass [] secretArr = []"
| "secondPass (tile # rest) secretArr =
     (if state tile \<noteq> CORRECT then
        (case indexOf secretArr (char tile) of
           Some indexInSecret \<Rightarrow>
             tile\<lparr>state := PRESENT\<rparr> # secondPass rest (secretArr[indexInSecret := ''''])
         | None \<Rightarrow> tile\<lparr>state := ABSENT\<rparr> # secondPass rest secretArr)
      else tile # secondPass rest secretArr)"

text \<open>
  Lines 112-137 as one function of the submitted row, the guessed word and the secret
  word: the evaluated tiles of the row.
\<close>

definition evaluateGuess :: "TileData list \<Rightarrow> string \<Rightarrow> string \<Rightarrow> error + TileData list" where
  "evaluateGuess row currentGuess secret =
     (case firstPass 0 (js_split currentGuess) (row, js_split secret) of
        Inl e \<Rightarrow> Inl e
      | Inr (rowTiles, secretArr) \<Rightarrow> Inr (secondPass rowTiles secretArr))"

text \<open>The row that typing the letters of \<open>word\<close> one by one leaves in the grid.\<close>

definition typedRow :: "string \<Rightarrow> TileData list" where
  "typedRow word = map (\<lambda>c. \<lparr>char = [c], state = INITIAL\<rparr>) word"

section \<open>Keyboard hints (handleEnter, lines 142-157)\<close>

text \<open>
  The body of \<open>rowTiles.forEach(tile => ...)\<close> inside the \<open>setLetterStates\<close> updater.
  \<open>next[tile.char]\<close> is \<open>undefined\<close> (here \<open>None\<close>) for a letter with no entry, and
  \<open>!currentState\<close> holds for exactly that case, every LetterState being a non-empty
  string. Keys are the characters of tiles; property names that a JavaScript object
  inherits (such as \<open>constructor\<close>) are not modelled.
\<close>

definition upgradeLetter ::
  "TileData \<Rightarrow> (string \<rightharpoonup> LetterState) \<Rightarrow> (string \<rightharpoonup> LetterState)"
where
  "upgradeLetter tile next =
     (let currentState = next (char tile)
      in if state tile = CORRECT then next(char tile \<mapsto> CORRECT)
         else if state tile = PRESENT \<and> currentState \<noteq> Some CORRECT then
           next(char tile \<mapsto> PRESENT)
         else if state tile = ABSENT \<and> currentState = None then
           next(char tile \<mapsto> ABSENT)
         else next)"

text \<open>The updater \<open>prev => { const next = {...prev}; ...; return next; }\<close>.\<close>

definition updateLetterStates ::
  "TileData list \<Rightarrow> (string \<rightharpoonup> LetterState) \<Rightarrow> (string \<rightharpoonup> LetterState)"
where
  "updateLetterStates rowTiles prev = fold upgradeLetter rowTiles prev"

text \<open>
  The order of the comment on line 147, \<open>Initial < Absent < Present < Correct\<close>, with a
  letter that has no entry yet at the bottom, beside INITIAL.
\<close>

fun informativeness :: "LetterState option \<Rightarrow> nat" where
  "informativeness None = 0"
| "informativeness (Some INITIAL) = 0"
| "informativeness (Some ABSENT) = 1"
| "informativeness (Some PRESENT) = 2"
| "informativeness (Some CORRECT) = 3"

section \<open>handleEnter (lines 85-178)\<close>

text \<open>
  \<open>handleEnter\<close> is asynchronous: it runs up to \<open>await validateWordExistence(currentGuess)\<close>,
  gives control back, and goes on when the promise resolves. \<open>Returned\<close> is a run that ended
  before the \<open>await\<close>, \<open>Awaiting\<close> one that is suspended there on the given guess.

  The toast (\<open>shakeRow\<close>, \<open>message\<close>) is what the handler shows the player; each
  \<open>setTimeout\<close> schedules \<open>toastTimeout\<close> (after 500 ms or 1000 ms). Time is not modelled.
\<close>

datatype EnterOutcome = Returned GameState | Awaiting string GameState

definition toastTimeout :: "GameState \<Rightarrow> GameState" where
  "toastTimeout s = s\<lparr>shakeRow := False, message := None\<rparr>"

definition handleEnter_begin :: "GameState \<Rightarrow> error + EnterOutcome" where
  "handleEnter_begin s =
     (if gameStatus s \<noteq> PLAYING then Inr (Returned s)
      else if currentCol s < WORD_LENGTH then
        Inr (Returned (s\<lparr>shakeRow := True, message := Some ''Too short''\<rparr>))
      else if currentRow s \<ge> length (grid s) then Inl TypeError
      else
        let currentGuess = js_join (map char (grid s ! currentRow s))
        in Inr (Awaiting currentGuess (s\<lparr>gameStatus := VALIDATING\<rparr>)))"

text \<open>
  The part after the \<open>await\<close>. \<open>cap\<close> is the state the closure was created in: \<open>grid\<close>,
  \<open>currentRow\<close> and \<open>secretWord\<close> are read from it. \<open>cur\<close> is the state when the promise
  resolves: the setters write to it, and the functional updaters (\<open>prev => ...\<close>) read from
  it. An exception in the first pass is thrown before any setter of this part has run.
\<close>

definition handleEnter_resume ::
  "bool \<Rightarrow> GameState \<Rightarrow> string \<Rightarrow> GameState \<Rightarrow> error + GameState"
where
  "handleEnter_resume isValid cap currentGuess cur =
     (if \<not> isValid then
        Inr (cur\<lparr>gameStatus := PLAYING, shakeRow := True, message := Some ''Not a valid word''\<rparr>)
      else if currentRow cap \<ge> length (grid cap) then Inl TypeError
      else
        case evaluateGuess (grid cap ! currentRow cap) currentGuess (secretWord cap) of
          Inl e \<Rightarrow> Inl e
        | Inr rowTiles \<Rightarrow>
            let newGrid = (grid cap)[currentRow cap := rowTiles];
                s1 = cur\<lparr>grid := newGrid,
                        letterStates := updateLetterStates rowTiles (letterStates cur)\<rparr>
            in if currentGuess = secretWord cap then
                 Inr (s1\<lparr>gameStatus := WON, message := Some ''SPLENDID''\<rparr>)
               else if currentRow cap = MAX_GUESSES - 1 then
                 Inr (s1\<lparr>gameStatus := LOST, message := Some (secretWord cap)\<rparr>)
               else
                 Inr (s1\<lparr>gameStatus := PLAYING, currentRow := currentRow cur + 1,
                         currentCol := 0\<rparr>))"

text \<open>
  A whole call, with the provider's answer. While the status is VALIDATING the three
  handlers return at their first line, so the grid, the cursor, the secret word and the
  hints at the \<open>await\<close> are those the run resumes with; the composite resumes in the
  state of the \<open>await\<close> itself (a toast timer or the colour switch firing in between
  is a run of \<open>handleEnter_resume\<close> with another \<open>cur\<close>). A promise that does not
  resolve leaves the game in VALIDATING.
\<close>

definition handleEnter :: "WordProvider \<Rightarrow> GameState \<Rightarrow> error + GameState" where
  "handleEnter P s =
     (case handleEnter_begin s of
        Inl e \<Rightarrow> Inl e
      | Inr (Returned s') \<Rightarrow> Inr s'
      | Inr (Awaiting currentGuess s') \<Rightarrow>
          (case validateWordExistence P currentGuess of
             None \<Rightarrow> Inr s'
           | Some isValid \<Rightarrow> handleEnter_resume isValid s currentGuess s'))"

section \<open>The physical keyboard listener (lines 181-201)\<close>

record KeyboardEvent =
  ctrlKey :: bool
  metaKey :: bool
  altKey :: bool
  key :: string

text \<open>
  \<open>e.key.toUpperCase()\<close>: the letters a to z go to A to Z and the other ASCII characters
  stay. The case mapping of characters beyond ASCII is not modelled (they stay too); the
  properties below speak of the upper-cased key only.
\<close>

definition upperChar :: "char \<Rightarrow> char" where
  "upperChar c =
     (case map_of (zip ''abcdefghijklmnopqrstuvwxyz'' ''ABCDEFGHIJKLMNOPQRSTUVWXYZ'') c of
        Some C \<Rightarrow> C
      | None \<Rightarrow> c)"

definition toUpperCase :: "string \<Rightarrow> string" where
  "toUpperCase str = map upperChar str"

text \<open>The test \<open>/^[A-Z]$/.test(key)\<close>: exactly one character, one of A to Z.\<close>

definition isCapitalLetter :: "string \<Rightarrow> bool" where
  "isCapitalLetter k =
     (case k of
        [c] \<Rightarrow> c \<in> set ''ABCDEFGHIJKLMNOPQRSTUVWXYZ''
      | _ \<Rightarrow> False)"

definition handleKeyDown :: "WordProvider \<Rightarrow> KeyboardEvent \<Rightarrow> GameState \<Rightarrow> error + GameState" where
  "handleKeyDown P e s =
     (if ctrlKey e \<or> metaKey e \<or> altKey e then Inr s
      else
        let k = toUpperCase (key e)
        in if k = ''ENTER'' then
             (if gameStatus s = WON \<or> gameStatus s = LOST then Inr (initGame P s)
              else handleEnter P s)
           else if k = ''BACKSPACE'' then handleDelete s
           else if isCapitalLetter k then handleKeyInput k s
           else Inr s)"

section \<open>The shape of the grid\<close>

text \<open>
  What \<open>initGame\<close> establishes and every handler keeps: MAX_GUESSES rows of WORD_LENGTH
  tiles, the cursor inside the grid.
\<close>

definition wellFormed :: "GameState \<Rightarrow> bool" where
  "wellFormed s \<longleftrightarrow>
     length (grid s) = MAX_GUESSES \<and>
     list_all (\<lambda>row. length row = WORD_LENGTH) (grid s) \<and>
     currentRow s < MAX_GUESSES \<and>
     currentCol s \<le> WORD_LENGTH"

text \<open>A row as typing leaves it: every tile holds one character and is INITIAL.\<close>

definition typedTile :: "TileData \<Rightarrow> bool" where
  "typedTile t \<longleftrightarrow> length (char t) = 1 \<and> state t = INITIAL"

text \<open>The number of tiles of a row that show the letter \<open>L\<close> as PRESENT or CORRECT.\<close>

definition credited :: "char \<Rightarrow> TileData list \<Rightarrow> nat" where
  "credited L tiles =
     length (filter (\<lambda>t. char t = [L] \<and> (state t = PRESENT \<or> state t = CORRECT)) tiles)"

text \<open>The number of tiles of a row that show the letter \<open>L\<close> as CORRECT.\<close>

definition exactMatches :: "char \<Rightarrow> TileData list \<Rightarrow> nat" where
  "exactMatches L tiles =
     length (filter (\<lambda>t. char t = [L] \<and> state t = CORRECT) tiles)"

section \<open>Concrete games\<close>

text \<open>
  A provider that always hands out CRANE and accepts three words, one that hands out
  the empty word, and the games they lead to.
\<close>

definition craneProvider :: WordProvider where
  "craneProvider =
     \<lparr>fetchRandomWord = (\<lambda>n. Some ''CRANE''),
      validateWordExistence = (\<lambda>w. Some (w \<in> set [''CRANE'', ''CRAZY'', ''REACT'']))\<rparr>"

definition emptyProvider :: WordProvider where
  "emptyProvider =
     \<lparr>fetchRandomWord = (\<lambda>n. Some []), validateWordExistence = (\<lambda>w. Some True)\<rparr>"

definition freshGame :: GameState where
  "freshGame = initGame craneProvider initialState"

text \<open>Typing a word letter by letter, and the game after typing it into a fresh grid.\<close>

fun typeWord :: "string \<Rightarrow> GameState \<Rightarrow> error + GameState" where
  "typeWord [] s = Inr s"
| "typeWord (c # cs) s =
     (case handleKeyInput [c] s of Inl e \<Rightarrow> Inl e | Inr s' \<Rightarrow> typeWord cs s')"

definition typed :: "string \<Rightarrow> GameState" where
  "typed w = (case typeWord w freshGame of Inl e \<Rightarrow> freshGame | Inr s \<Rightarrow> s)"

definition digitOne :: KeyboardEvent where
  "digitOne = \<lparr>ctrlKey = False, metaKey = False, altKey = False, key = ''1''\<rparr>"

section \<open>Lists under a single update\<close>

lemma count_list_update:
  "i < length xs \<Longrightarrow>
   count_list (xs[i := v]) y + (if xs ! i = y then 1 else 0) =
   count_list xs y + (if v = y then 1 else 0)"
proof (induction xs arbitrary: i)
  case Nil
  then show ?case by simp
next
  case (Cons x xs)
  show ?case
  proof (cases i)
    case 0
    then show ?thesis by simp
  next
    case (Suc j)
    with Cons.prems have "j < length xs" by simp
    from Cons.IH [OF this] Suc show ?thesis by auto
  qed
qed

lemma filter_length_update:
  "i < length xs \<Longrightarrow>
   length (filter P (xs[i := v])) + (if P (xs ! i) then 1 else 0) =
   length (filter P xs) + (if P v then 1 else 0)"
proof (induction xs arbitrary: i)
  case Nil
  then show ?case by simp
next
  case (Cons x xs)
  show ?case
  proof (cases i)
    case 0
    then show ?thesis by simp
  next
    case (Suc j)
    with Cons.prems have "j < length xs" by simp
    from Cons.IH [OF this] Suc show ?thesis by auto
  qed
qed

lemma indexOf_Some: "indexOf xs x = Some k \<Longrightarrow> k < length xs \<and> xs ! k = x"
proof (induction xs arbitrary: k)
  case Nil
  then show ?case by simp
next
  case (Cons y ys)
  then show ?case by (auto split: if_splits)
qed

lemma count_clear:
  assumes "i < length sa"
  shows "count_list (sa[i := '''']) [L] + (if sa ! i = [L] then 1 else 0) = count_list sa [L]"
  using count_list_update [OF assms, of "''''" "[L]"] by simp

lemma count_split: "count_list (js_split S) [L] = count_list S L"
  by (induction S) (simp_all add: js_split_def)

section \<open>The guess and the row\<close>

text \<open>Joining the characters of single-letter tiles and splitting again gives them back.\<close>

lemma split_join_single:
  "list_all (\<lambda>t. length (char t) = 1) row \<Longrightarrow>
   js_split (js_join (map char row)) = map char row"
proof (induction row)
  case Nil
  then show ?case by (simp add: js_split_def js_join_def)
next
  case (Cons t ts)
  from Cons.prems obtain c where "char t = [c]"
    by (auto simp: length_Suc_conv)
  with Cons show ?case
    by (simp add: js_split_def js_join_def)
qed

lemma typed_single: "list_all typedTile row \<Longrightarrow> list_all (\<lambda>t. length (char t) = 1) row"
  by (induction row) (simp_all add: typedTile_def)

lemma exactMatches_typed: "list_all typedTile row \<Longrightarrow> exactMatches L row = 0"
  by (induction row) (simp_all add: exactMatches_def typedTile_def)

lemma typedRow_typed: "list_all typedTile (typedRow word)"
  by (induction word) (simp_all add: typedRow_def typedTile_def)

lemma typedRow_join: "js_join (map char (typedRow word)) = word"
  by (induction word) (simp_all add: typedRow_def js_join_def)

section \<open>The first pass\<close>

lemma map_char_mark: "map char (tiles[i := (tiles ! i)\<lparr>state := st\<rparr>]) = map char tiles"
  by (cases "i < length tiles")
    (simp_all add: map_update list_update_same_conv list_update_beyond)

lemma exactMatches_mark:
  assumes "i < length tiles"
  shows "exactMatches L (tiles[i := (tiles ! i)\<lparr>state := CORRECT\<rparr>]) \<le>
         exactMatches L tiles + (if char (tiles ! i) = [L] then 1 else 0)"
  using filter_length_update [OF assms, of "\<lambda>t. char t = [L] \<and> state t = CORRECT"
      "(tiles ! i)\<lparr>state := CORRECT\<rparr>"]
  by (auto simp: exactMatches_def split: if_splits)

text \<open>
  When the guess is the characters of the row from index \<open>i\<close> on, the first pass ends
  normally, keeps the characters, and pays for every tile it marks with one occurrence
  of the letter in \<open>secretArr\<close>.
\<close>

lemma firstPass_exactMatches:
  assumes "map char tiles = pre @ g" and "length pre = i"
  shows "\<exists>tiles' sa'. firstPass i g (tiles, sa) = Inr (tiles', sa') \<and>
           map char tiles' = map char tiles \<and>
           exactMatches L tiles' + count_list sa' [L] \<le> exactMatches L tiles + count_list sa [L]"
  using assms
proof (induction g arbitrary: i tiles sa pre)
  case Nil
  then show ?case by simp
next
  case (Cons ch rest)
  have "length tiles = length (map char tiles)"
    by simp
  also have "\<dots> = length (pre @ ch # rest)"
    by (simp only: Cons.prems(1))
  finally have len: "i < length tiles"
    using Cons.prems(2) by simp
  have "map char tiles ! i = ch"
    using Cons.prems by (simp add: nth_append)
  then have chi: "char (tiles ! i) = ch"
    using len by simp
  have l: "length (pre @ [ch]) = Suc i"
    using Cons.prems by simp
  show ?case
  proof (cases "i < length sa \<and> ch = sa ! i")
    case True
    let ?tiles1 = "tiles[i := (tiles ! i)\<lparr>state := CORRECT\<rparr>]"
    let ?sa1 = "sa[i := '''']"
    have m: "map char ?tiles1 = (pre @ [ch]) @ rest"
      using Cons.prems by (simp add: map_char_mark)
    from Cons.IH [OF m l, of ?sa1] obtain tiles' sa' where
      r: "firstPass (Suc i) rest (?tiles1, ?sa1) = Inr (tiles', sa')"
      and c: "map char tiles' = map char ?tiles1"
      and e: "exactMatches L tiles' + count_list sa' [L]
                \<le> exactMatches L ?tiles1 + count_list ?sa1 [L]"
      by blast
    have step: "exactMatches L ?tiles1 + count_list ?sa1 [L]
                  \<le> exactMatches L tiles + count_list sa [L]"
      using exactMatches_mark [OF len, of L] count_clear [of i sa L] True chi
      by (auto split: if_splits)
    from r c e step True len show ?thesis
      by (simp add: map_char_mark)
  next
    case False
    have m: "map char tiles = (pre @ [ch]) @ rest"
      using Cons.prems by simp
    from Cons.IH [OF m l, of sa] obtain tiles' sa' where
      "firstPass (Suc i) rest (tiles, sa) = Inr (tiles', sa')"
      and "map char tiles' = map char tiles"
      and "exactMatches L tiles' + count_list sa' [L] \<le> exactMatches L tiles + count_list sa [L]"
      by blast
    with False show ?thesis
      by auto
  qed
qed

text \<open>When the guess is \<open>secretArr\<close> itself from index \<open>i\<close> on, every tile from \<open>i\<close> on is marked.\<close>

lemma firstPass_same:
  assumes "drop i sa = g" and "i + length g = length tiles"
  shows "firstPass i g (tiles, sa) =
           Inr (take i tiles @ map (\<lambda>t. t\<lparr>state := CORRECT\<rparr>) (drop i tiles),
                take i sa @ replicate (length g) '''')"
  using assms
proof (induction g arbitrary: i tiles sa)
  case Nil
  then show ?case by simp
next
  case (Cons ch rest)
  have isa: "i < length sa"
  proof (rule ccontr)
    assume "\<not> i < length sa"
    then have "drop i sa = []" by simp
    with Cons.prems(1) show False by simp
  qed
  from Cons.prems(1) isa have hd: "sa ! i = ch" and tl: "drop (Suc i) sa = rest"
    by (simp_all add: Cons_nth_drop_Suc [symmetric])
  from Cons.prems(2) have it: "i < length tiles" by simp
  let ?tiles1 = "tiles[i := (tiles ! i)\<lparr>state := CORRECT\<rparr>]"
  let ?sa1 = "sa[i := '''']"
  have d: "drop (Suc i) ?sa1 = rest"
    using tl by simp
  have l: "Suc i + length rest = length ?tiles1"
    using Cons.prems(2) by simp
  have t1: "take (Suc i) ?tiles1 = take i tiles @ [(tiles ! i)\<lparr>state := CORRECT\<rparr>]"
    using it by (simp add: take_Suc_conv_app_nth)
  have t2: "drop (Suc i) ?tiles1 = drop (Suc i) tiles"
    by simp
  have t3: "drop i tiles = tiles ! i # drop (Suc i) tiles"
    using it by (simp add: Cons_nth_drop_Suc)
  have s1: "take (Suc i) ?sa1 = take i sa @ ['''']"
    using isa by (simp add: take_Suc_conv_app_nth)
  from Cons.IH [OF d l] isa hd it show ?case
    by (simp add: t1 t2 t3 s1 replicate_app_Cons_same)
qed

lemma firstPass_length:
  "firstPass i g (tiles, sa) = Inr (tiles', sa') \<Longrightarrow> length tiles' = length tiles"
proof (induction g arbitrary: i tiles sa)
  case Nil
  then show ?case by simp
next
  case (Cons ch rest)
  show ?case
  proof (cases "i < length sa \<and> ch = sa ! i")
    case True
    with Cons.prems have
      "firstPass (Suc i) rest (tiles[i := (tiles ! i)\<lparr>state := CORRECT\<rparr>], sa[i := '''']) =
         Inr (tiles', sa')"
      by (simp split: if_splits)
    from Cons.IH [OF this] show ?thesis by simp
  next
    case False
    with Cons.prems have "firstPass (Suc i) rest (tiles, sa) = Inr (tiles', sa')"
      by auto
    from Cons.IH [OF this] show ?thesis .
  qed
qed

section \<open>The second pass\<close>

lemma secondPass_chars: "map char (secondPass tiles sa) = map char tiles"
  by (induction tiles arbitrary: sa) (simp_all split: option.split)

lemma secondPass_length: "length (secondPass tiles sa) = length tiles"
  by (induction tiles arbitrary: sa) (simp_all split: option.split)

lemma secondPass_all_correct:
  "list_all (\<lambda>t. state t = CORRECT) tiles \<Longrightarrow> secondPass tiles sa = tiles"
  by (induction tiles arbitrary: sa) simp_all

lemma credited_Cons:
  "credited L (t # ts) =
     (if char t = [L] \<and> (state t = PRESENT \<or> state t = CORRECT) then 1 else 0) + credited L ts"
  by (simp add: credited_def)

lemma exactMatches_Cons:
  "exactMatches L (t # ts) =
     (if char t = [L] \<and> state t = CORRECT then 1 else 0) + exactMatches L ts"
  by (simp add: exactMatches_def)

text \<open>
  After the second pass, the tiles crediting \<open>L\<close> are at most the tiles that were CORRECT
  before it plus the occurrences of \<open>L\<close> left in \<open>secretArr\<close>.
\<close>

lemma secondPass_credited:
  "credited L (secondPass tiles sa) \<le> exactMatches L tiles + count_list sa [L]"
proof (induction tiles arbitrary: sa)
  case Nil
  then show ?case by (simp add: credited_def)
next
  case (Cons t ts)
  show ?case
  proof (cases "state t = CORRECT")
    case True
    with Cons.IH [of sa] show ?thesis
      by (simp add: credited_Cons exactMatches_Cons)
  next
    case False
    show ?thesis
    proof (cases "indexOf sa (char t)")
      case None
      with False Cons.IH [of sa] show ?thesis
        by (simp add: credited_Cons exactMatches_Cons)
    next
      case (Some k)
      then have k: "k < length sa" and sk: "sa ! k = char t"
        by (simp_all add: indexOf_Some)
      from Cons.IH [of "sa[k := '''']"] count_clear [OF k, of L] sk False Some
      show ?thesis
        by (auto simp: credited_Cons exactMatches_Cons split: if_splits)
    qed
  qed
qed

section \<open>The whole evaluation\<close>

lemma evaluateGuess_length:
  "evaluateGuess row currentGuess secret = Inr tiles \<Longrightarrow> length tiles = length row"
  by (auto simp: evaluateGuess_def secondPass_length split: sum.splits dest: firstPass_length)

lemma evaluateGuess_same:
  assumes "list_all (\<lambda>t. length (char t) = 1) row" and "js_join (map char row) = S"
  shows "evaluateGuess row S S = Inr (map (\<lambda>t. t\<lparr>state := CORRECT\<rparr>) row)"
proof -
  have g: "js_split S = map char row"
    using split_join_single [OF assms(1)] assms(2) by simp
  have "drop 0 (js_split S) = js_split S" and "0 + length (js_split S) = length row"
    by (simp_all add: g)
  from firstPass_same [OF this]
  have "firstPass 0 (js_split S) (row, js_split S) =
          Inr (map (\<lambda>t. t\<lparr>state := CORRECT\<rparr>) row, replicate (length (js_split S)) [])"
    by simp
  moreover have "list_all (\<lambda>t. state t = CORRECT) (map (\<lambda>t. t\<lparr>state := CORRECT\<rparr>) row)"
    by (simp add: list_all_iff)
  ultimately show ?thesis
    by (simp add: evaluateGuess_def secondPass_all_correct)
qed

section \<open>Keyboard hints only move up\<close>

lemma upgradeLetter_mono:
  "informativeness (next L) \<le> informativeness (upgradeLetter tile next L)"
proof (cases "char tile = L")
  case False
  then show ?thesis by (simp add: upgradeLetter_def Let_def)
next
  case True
  show ?thesis
  proof (cases "next L")
    case None
    with True show ?thesis by (simp add: upgradeLetter_def Let_def)
  next
    case (Some st)
    with True show ?thesis
      by (cases st; cases "state tile") (simp_all add: upgradeLetter_def Let_def)
  qed
qed

lemma updateLetterStates_mono:
  "informativeness (prev L) \<le> informativeness (updateLetterStates rowTiles prev L)"
  unfolding updateLetterStates_def
proof (induction rowTiles arbitrary: prev)
  case Nil
  show ?case by simp
next
  case (Cons tile rest)
  have "informativeness (prev L) \<le> informativeness (upgradeLetter tile prev L)"
    by (rule upgradeLetter_mono)
  also have "\<dots> \<le> informativeness (fold upgradeLetter rest (upgradeLetter tile prev) L)"
    by (rule Cons.IH)
  finally show ?case by simp
qed

lemma rows_mono:
  "informativeness (m L) \<le> informativeness (fold updateLetterStates rows m L)"
proof (induction rows arbitrary: m)
  case Nil
  show ?case by simp
next
  case (Cons r rs)
  have "informativeness (m L) \<le> informativeness (updateLetterStates r m L)"
    by (rule updateLetterStates_mono)
  also have "\<dots> \<le> informativeness (fold updateLetterStates rs (updateLetterStates r m) L)"
    by (rule Cons.IH)
  finally show ?case by simp
qed

lemma informativeness_top: "3 \<le> informativeness x \<longleftrightarrow> x = Some CORRECT"
  by (cases x rule: informativeness.cases) simp_all

text \<open>
  The handlers change the hints through \<open>updateLetterStates\<close> only: typing and deleting
  keep them, a submission keeps them or folds one evaluated row in.
\<close>

lemma handleKeyInput_letterStates:
  "handleKeyInput k s = Inr s' \<Longrightarrow> letterStates s' = letterStates s"
  by (auto simp: handleKeyInput_def split: if_splits sum.splits)

lemma handleDelete_letterStates:
  "handleDelete s = Inr s' \<Longrightarrow> letterStates s' = letterStates s"
  by (auto simp: handleDelete_def split: if_splits sum.splits)

lemma handleEnter_resume_letterStates:
  assumes "handleEnter_resume isValid cap g cur = Inr s'"
  shows "letterStates s' = fold updateLetterStates [] (letterStates cur) \<or>
         (\<exists>rowTiles. letterStates s' = fold updateLetterStates [rowTiles] (letterStates cur))"
proof (cases isValid)
  case False
  with assms show ?thesis
    by (auto simp: handleEnter_resume_def)
next
  case True
  with assms obtain rowTiles where
    "evaluateGuess (grid cap ! currentRow cap) g (secretWord cap) = Inr rowTiles"
    by (auto simp: handleEnter_resume_def split: if_splits sum.splits)
  with True assms have "letterStates s' = updateLetterStates rowTiles (letterStates cur)"
    by (auto simp: handleEnter_resume_def Let_def split: if_splits)
  then show ?thesis by auto
qed

lemma handleEnter_letterStates:
  assumes "handleEnter P s = Inr s'"
  shows "informativeness (letterStates s L) \<le> informativeness (letterStates s' L)"
proof (cases "gameStatus s = PLAYING \<and> \<not> currentCol s < WORD_LENGTH \<and>
    currentRow s < length (grid s)")
  case False
  with assms show ?thesis
    by (auto simp: handleEnter_def handleEnter_begin_def split: if_splits)
next
  case True
  let ?g = "js_join (map char (grid s ! currentRow s))"
  let ?v = "s\<lparr>gameStatus := VALIDATING\<rparr>"
  from True have b: "handleEnter_begin s = Inr (Awaiting ?g ?v)"
    by (simp add: handleEnter_begin_def)
  show ?thesis
  proof (cases "validateWordExistence P ?g")
    case None
    with assms b show ?thesis by (auto simp: handleEnter_def)
  next
    case (Some isValid)
    with assms b have "handleEnter_resume isValid s ?g ?v = Inr s'"
      by (simp add: handleEnter_def)
    from handleEnter_resume_letterStates [OF this] obtain rows where
      "letterStates s' = fold updateLetterStates rows (letterStates ?v)"
      by blast
    then show ?thesis
      using rows_mono [of "letterStates s" L rows] by simp
  qed
qed

section \<open>The shape of the grid is kept\<close>

lemma initGame_wellFormed: "wellFormed (initGame P s)"
  by (simp add: initGame_def initGame_begin_def initGame_resume_def wellFormed_def
      MAX_GUESSES_def Let_def list_all_length split: option.split)

lemma handleKeyInput_wellFormed:
  assumes "wellFormed s"
  shows "\<exists>s'. handleKeyInput k s = Inr s' \<and> wellFormed s'"
proof -
  from assms have "currentRow s < length (grid s)"
    and "currentCol s < WORD_LENGTH \<longrightarrow> currentCol s < length (grid s ! currentRow s)"
    by (auto simp: wellFormed_def list_all_length)
  with assms show ?thesis
    by (auto simp: handleKeyInput_def assignAt_def wellFormed_def list_all_length
        nth_list_update)
qed

lemma handleDelete_wellFormed:
  assumes "wellFormed s"
  shows "\<exists>s'. handleDelete s = Inr s' \<and> wellFormed s'"
proof -
  from assms have "currentRow s < length (grid s)"
    and "0 < currentCol s \<longrightarrow> currentCol s - 1 < length (grid s ! currentRow s)"
    by (auto simp: wellFormed_def list_all_length)
  with assms show ?thesis
    by (auto simp: handleDelete_def assignAt_def wellFormed_def list_all_length
        nth_list_update)
qed

lemma handleEnter_resume_wellFormed:
  assumes "wellFormed cap" and "cur = cap\<lparr>gameStatus := VALIDATING\<rparr>"
    and "handleEnter_resume isValid cap g cur = Inr s'"
  shows "wellFormed s'"
proof (cases isValid)
  case False
  with assms show ?thesis
    by (auto simp: handleEnter_resume_def wellFormed_def)
next
  case True
  from assms(1) have row: "currentRow cap < length (grid cap)"
    by (simp add: wellFormed_def)
  with True assms(3) obtain rowTiles where
    ev: "evaluateGuess (grid cap ! currentRow cap) g (secretWord cap) = Inr rowTiles"
    by (auto simp: handleEnter_resume_def split: if_splits sum.splits)
  from evaluateGuess_length [OF ev] assms(1) row have len: "length rowTiles = WORD_LENGTH"
    by (simp add: wellFormed_def list_all_length)
  have newGrid: "list_all (\<lambda>row. length row = WORD_LENGTH) ((grid cap)[currentRow cap := rowTiles])"
    using assms(1) len by (auto simp: wellFormed_def list_all_length nth_list_update)
  from True row ev assms newGrid show ?thesis
    by (auto simp: handleEnter_resume_def wellFormed_def Let_def MAX_GUESSES_def
        split: if_splits)
qed

lemma handleEnter_wellFormed:
  assumes "wellFormed s" and "handleEnter P s = Inr s'"
  shows "wellFormed s'"
proof (cases "gameStatus s = PLAYING \<and> \<not> currentCol s < WORD_LENGTH")
  case False
  with assms show ?thesis
    by (auto simp: handleEnter_def handleEnter_begin_def wellFormed_def split: if_splits)
next
  case True
  from assms(1) have row: "currentRow s < length (grid s)"
    by (simp add: wellFormed_def)
  let ?g = "js_join (map char (grid s ! currentRow s))"
  let ?v = "s\<lparr>gameStatus := VALIDATING\<rparr>"
  from True row have b: "handleEnter_begin s = Inr (Awaiting ?g ?v)"
    by (simp add: handleEnter_begin_def)
  show ?thesis
  proof (cases "validateWordExistence P ?g")
    case None
    with assms b show ?thesis by (auto simp: handleEnter_def wellFormed_def)
  next
    case (Some isValid)
    with assms b have "handleEnter_resume isValid s ?g ?v = Inr s'"
      by (simp add: handleEnter_def)
    with assms(1) show ?thesis
      by (rule handleEnter_resume_wellFormed [OF _ refl])
  qed
qed

section \<open>The concrete games\<close>

lemma freshGame_facts:
  "wellFormed freshGame" "gameStatus freshGame = PLAYING"
  "currentRow freshGame = 0" "currentCol freshGame = 0"
  "length (grid freshGame) = 5" "length (grid freshGame ! 0) = 5"
  by code_simp+

text \<open>Typing a word through \<open>handleKeyInput\<close> leaves \<open>typedRow\<close> of the word in the grid.\<close>

lemma typed_LLAMA_row: "grid (typed ''LLAMA'') ! currentRow (typed ''LLAMA'') = typedRow ''LLAMA''"
  by code_simp

lemma typed_CAT_facts:
  "gameStatus (typed ''CAT'') = PLAYING" "currentCol (typed ''CAT'') < WORD_LENGTH"
  by code_simp+

lemma typed_CR_facts:
  "wellFormed (typed ''CR'')" "gameStatus (typed ''CR'') = PLAYING" "0 < currentCol (typed ''CR'')"
  by code_simp+

lemma typed_QQQQQ_facts:
  "wellFormed (typed ''QQQQQ'')" "gameStatus (typed ''QQQQQ'') = PLAYING"
  "currentCol (typed ''QQQQQ'') = WORD_LENGTH"
  "validateWordExistence craneProvider
     (js_join (map char (grid (typed ''QQQQQ'') ! currentRow (typed ''QQQQQ'')))) = Some False"
  by code_simp+

lemma typed_CRANE_facts:
  "wellFormed (typed ''CRANE'')" "gameStatus (typed ''CRANE'') = PLAYING"
  "currentCol (typed ''CRANE'') = WORD_LENGTH"
  "list_all (\<lambda>t. length (char t) = 1) (grid (typed ''CRANE'') ! currentRow (typed ''CRANE''))"
  "js_join (map char (grid (typed ''CRANE'') ! currentRow (typed ''CRANE''))) =
     secretWord (typed ''CRANE'')"
  "validateWordExistence craneProvider (secretWord (typed ''CRANE'')) = Some True"
  by code_simp+

section \<open>Properties\<close>

subsection \<open>Guess evaluation\<close>

text \<open>
  C1. For every secret word \<open>S\<close> and every guess typed into a row (one character per tile,
  every tile INITIAL, the guess being the characters of the row), the evaluation ends
  normally, keeps the characters of the row, and marks at most \<open>count_list S L\<close> tiles
  holding the letter \<open>L\<close> as PRESENT or CORRECT. The length of \<open>S\<close> plays no role, so the
  words of equal length are covered.
\<close>

theorem evaluation_never_overcredits:
  assumes "list_all typedTile row"
  shows "\<exists>tiles. evaluateGuess row (js_join (map char row)) S = Inr tiles \<and>
           map char tiles = map char row \<and>
           credited L tiles \<le> count_list S L"
proof -
  have g: "js_split (js_join (map char row)) = map char row"
    using assms by (intro split_join_single typed_single)
  have "map char row = [] @ map char row" and "length ([] :: string list) = 0"
    by simp_all
  from firstPass_exactMatches [OF this, of "js_split S" L] obtain tiles' sa' where
    r: "firstPass 0 (map char row) (row, js_split S) = Inr (tiles', sa')"
    and c: "map char tiles' = map char row"
    and e: "exactMatches L tiles' + count_list sa' [L]
              \<le> exactMatches L row + count_list (js_split S) [L]"
    by blast
  have "credited L (secondPass tiles' sa') \<le> exactMatches L tiles' + count_list sa' [L]"
    by (rule secondPass_credited)
  with e have b: "credited L (secondPass tiles' sa') \<le> count_list S L"
    using assms by (simp add: exactMatches_typed count_split)
  have "map char (secondPass tiles' sa') = map char tiles'"
    by (rule secondPass_chars)
  with r c b g show ?thesis
    by (simp add: evaluateGuess_def)
qed

text \<open>
  Witness for C1: the guess LLAMA holds two A, the secret ALLOY one; at most one of them
  is credited.
\<close>

theorem evaluation_never_overcredits_witness:
  "list_all typedTile (typedRow ''LLAMA'') \<and>
   (\<exists>tiles. evaluateGuess (typedRow ''LLAMA'') (js_join (map char (typedRow ''LLAMA''))) ''ALLOY''
              = Inr tiles \<and>
            map char tiles = map char (typedRow ''LLAMA'') \<and>
            credited (CHR ''A'') tiles \<le> count_list ''ALLOY'' (CHR ''A''))"
proof -
  have h: "list_all typedTile (typedRow ''LLAMA'')"
    by (simp add: typedRow_def typedTile_def)
  from h evaluation_never_overcredits [OF h, of "''ALLOY''" "CHR ''A''"] show ?thesis
    by (rule conjI)
qed

text \<open>
  C2. In a PLAYING game whose current row is full, one letter per tile, spelling the
  secret word, and whose guess the provider accepts, submitting marks every tile of the
  row CORRECT (the letters stay) and sets the status to WON.
\<close>

theorem exact_guess_wins:
  assumes "wellFormed s" and "gameStatus s = PLAYING" and "currentCol s = WORD_LENGTH"
    and "list_all (\<lambda>t. length (char t) = 1) (grid s ! currentRow s)"
    and "js_join (map char (grid s ! currentRow s)) = secretWord s"
    and "validateWordExistence P (secretWord s) = Some True"
  shows "\<exists>s'. handleEnter P s = Inr s' \<and> gameStatus s' = WON \<and>
           currentRow s' = currentRow s \<and>
           grid s' ! currentRow s =
             map (\<lambda>t. t\<lparr>state := CORRECT\<rparr>) (grid s ! currentRow s) \<and>
           list_all (\<lambda>t. state t = CORRECT) (grid s' ! currentRow s)"
proof -
  from assms(1) have row: "currentRow s < length (grid s)"
    by (simp add: wellFormed_def)
  have b: "handleEnter_begin s = Inr (Awaiting (secretWord s) (s\<lparr>gameStatus := VALIDATING\<rparr>))"
    using assms row by (simp add: handleEnter_begin_def)
  have e: "evaluateGuess (grid s ! currentRow s) (secretWord s) (secretWord s) =
             Inr (map (\<lambda>t. t\<lparr>state := CORRECT\<rparr>) (grid s ! currentRow s))"
    using assms(4,5) by (rule evaluateGuess_same)
  show ?thesis
    using assms(6) row
    by (simp add: handleEnter_def b handleEnter_resume_def e list_all_iff)
qed

text \<open>Witness for C2: CRANE typed into a fresh game whose secret word is CRANE.\<close>

theorem exact_guess_wins_witness:
  "wellFormed (typed ''CRANE'') \<and> gameStatus (typed ''CRANE'') = PLAYING \<and>
   currentCol (typed ''CRANE'') = WORD_LENGTH \<and>
   js_join (map char (grid (typed ''CRANE'') ! currentRow (typed ''CRANE''))) =
     secretWord (typed ''CRANE'') \<and>
   validateWordExistence craneProvider (secretWord (typed ''CRANE'')) = Some True \<and>
   (\<exists>s'. handleEnter craneProvider (typed ''CRANE'') = Inr s' \<and> gameStatus s' = WON \<and>
      list_all (\<lambda>t. state t = CORRECT) (grid s' ! currentRow (typed ''CRANE'')))"
proof -
  from exact_guess_wins [OF typed_CRANE_facts] obtain s' where
    "handleEnter craneProvider (typed ''CRANE'') = Inr s'" and "gameStatus s' = WON"
    and "list_all (\<lambda>t. state t = CORRECT) (grid s' ! currentRow (typed ''CRANE''))"
    by blast
  with typed_CRANE_facts show ?thesis
    by blast
qed

text \<open>
  C3. Evaluating the guess LLAMA against the secret ALLOY gives exactly: position 0 (L)
  PRESENT, position 1 (L) CORRECT, position 2 (A) PRESENT, position 3 (M) ABSENT and
  position 4 (A) ABSENT.
\<close>

theorem evaluate_LLAMA_ALLOY:
  "evaluateGuess (typedRow ''LLAMA'') ''LLAMA'' ''ALLOY'' =
     Inr [\<lparr>char = ''L'', state = PRESENT\<rparr>, \<lparr>char = ''L'', state = CORRECT\<rparr>,
          \<lparr>char = ''A'', state = PRESENT\<rparr>, \<lparr>char = ''M'', state = ABSENT\<rparr>,
          \<lparr>char = ''A'', state = ABSENT\<rparr>]"
  by (simp add: evaluateGuess_def typedRow_def js_split_def)

subsection \<open>Loading\<close>

text \<open>
  C4 as stated fails: \<open>initGame\<close> does not look at the word it receives. When the fetch
  resolves with the empty word, the status still goes from LOADING to PLAYING, with an
  empty secret word.
\<close>

theorem initGame_empty_word_counterexample:
  "fetchRandomWord emptyProvider WORD_LENGTH = Some [] \<and>
   gameStatus (initGame_begin initialState) = LOADING \<and>
   gameStatus (initGame_resume [] (initGame_begin initialState)) = PLAYING \<and>
   gameStatus (initGame emptyProvider initialState) = PLAYING \<and>
   secretWord (initGame emptyProvider initialState) = []"
  by (simp add: emptyProvider_def initGame_def initGame_begin_def initGame_resume_def)

text \<open>
  C4, amended. \<open>initGame\<close> sets the status to LOADING before the fetch. When the fetch
  resolves, with whatever word (the empty one too), the word becomes the secret word and
  the status PLAYING; when it does not resolve, the status stays LOADING.
\<close>

theorem initGame_status:
  "gameStatus (initGame_begin s) = LOADING \<and>
   gameStatus (initGame_resume word (initGame_begin s)) = PLAYING \<and>
   secretWord (initGame_resume word (initGame_begin s)) = word \<and>
   (case fetchRandomWord P WORD_LENGTH of
      None \<Rightarrow> gameStatus (initGame P s) = LOADING
    | Some w \<Rightarrow> gameStatus (initGame P s) = PLAYING \<and> secretWord (initGame P s) = w)"
  by (simp add: initGame_def initGame_begin_def initGame_resume_def split: option.split)

subsection \<open>Typing and deleting\<close>

text \<open>
  C5 as stated fails: \<open>handleKeyInput\<close> does not look at the string it receives. In a
  fresh PLAYING game the string 1, which is no capital letter, is written to the first
  tile and the cursor moves on.
\<close>

theorem typeChar_malformed_counterexample:
  "gameStatus freshGame = PLAYING \<and> \<not> isCapitalLetter ''1'' \<and>
   handleKeyInput ''1'' freshGame \<noteq> Inr freshGame \<and>
   handleKeyInput ''1'' freshGame =
     Inr (freshGame\<lparr>grid := (grid freshGame)
                        [0 := (grid freshGame ! 0)[0 := \<lparr>char = ''1'', state = INITIAL\<rparr>]],
                    currentCol := 1\<rparr>)"
proof -
  have b: "\<not> isCapitalLetter ''1''"
    by (simp add: isCapitalLetter_def)
  have run: "handleKeyInput ''1'' freshGame =
     Inr (freshGame\<lparr>grid := (grid freshGame)
                        [0 := (grid freshGame ! 0)[0 := \<lparr>char = ''1'', state = INITIAL\<rparr>]],
                    currentCol := 1\<rparr>)"
    by (simp add: handleKeyInput_def assignAt_def WORD_LENGTH_def freshGame_facts)
  have "handleKeyInput ''1'' freshGame \<noteq> Inr freshGame"
  proof
    assume "handleKeyInput ''1'' freshGame = Inr freshGame"
    with run have "currentCol freshGame = 1"
      by (metis GameState.select_convs(4) GameState.surjective GameState.update_convs(4)
          sum.inject(2))
    with freshGame_facts(4) show False by simp
  qed
  with b run freshGame_facts(2) show ?thesis
    by blast
qed

text \<open>
  C5, amended. The check is in the keyboard listener: a key event whose key, in upper
  case, is neither ENTER nor BACKSPACE nor a single letter A to Z leaves the state as it
  is, in every status and without an exception. \<open>handleKeyInput\<close> itself stores the string
  it is given.
\<close>

theorem keyDown_malformed_ignored:
  assumes "toUpperCase (key e) \<noteq> ''ENTER''" and "toUpperCase (key e) \<noteq> ''BACKSPACE''"
    and "\<not> isCapitalLetter (toUpperCase (key e))"
  shows "handleKeyDown P e s = Inr s"
  using assms by (simp add: handleKeyDown_def)

text \<open>Witness for the amended C5: the key 1 pressed in a fresh game.\<close>

theorem keyDown_malformed_ignored_witness:
  "toUpperCase (key digitOne) \<noteq> ''ENTER'' \<and> toUpperCase (key digitOne) \<noteq> ''BACKSPACE'' \<and>
   \<not> isCapitalLetter (toUpperCase (key digitOne)) \<and>
   handleKeyDown craneProvider digitOne freshGame = Inr freshGame"
proof -
  have h1: "toUpperCase (key digitOne) \<noteq> ''ENTER''"
    and h2: "toUpperCase (key digitOne) \<noteq> ''BACKSPACE''"
    and h3: "\<not> isCapitalLetter (toUpperCase (key digitOne))"
    by (simp_all add: digitOne_def toUpperCase_def upperChar_def isCapitalLetter_def)
  from h1 h2 h3 keyDown_malformed_ignored [OF h1 h2 h3, of craneProvider freshGame]
  show ?thesis
    by blast
qed

text \<open>
  C9. In a well-formed PLAYING game with the cursor past column 0, \<open>handleDelete\<close> followed
  by \<open>handleKeyInput c\<close> ends normally; the tile at the cursor position (the column before
  the original cursor) is exactly \<open>{char: c, state: INITIAL}\<close>, the cursor is back at its
  original column, and the whole state is the original one with that one tile replaced:
  nothing of the deleted letter is left.
\<close>

theorem delete_then_typeChar:
  assumes "wellFormed s" and "gameStatus s = PLAYING" and "0 < currentCol s"
  shows "\<exists>s1 s2. handleDelete s = Inr s1 \<and> handleKeyInput c s1 = Inr s2 \<and>
           currentCol s1 = currentCol s - 1 \<and>
           grid s2 ! currentRow s2 ! currentCol s1 = \<lparr>char = c, state = INITIAL\<rparr> \<and>
           currentCol s2 = currentCol s \<and> currentRow s2 = currentRow s \<and>
           s2 = s\<lparr>grid := (grid s)[currentRow s :=
                     (grid s ! currentRow s)
                       [currentCol s - 1 := \<lparr>char = c, state = INITIAL\<rparr>]]\<rparr>"
proof -
  from assms have row: "currentRow s < length (grid s)"
    and col: "currentCol s - 1 < length (grid s ! currentRow s)"
    and colw: "currentCol s - 1 < WORD_LENGTH"
    by (auto simp: wellFormed_def list_all_length)
  let ?s1 = "s\<lparr>grid := (grid s)[currentRow s :=
                   (grid s ! currentRow s)[currentCol s - 1 := \<lparr>char = '''', state = INITIAL\<rparr>]],
               currentCol := currentCol s - 1\<rparr>"
  have d: "handleDelete s = Inr ?s1"
    using assms row col by (simp add: handleDelete_def assignAt_def)
  let ?s2 = "s\<lparr>grid := (grid s)[currentRow s :=
                   (grid s ! currentRow s)[currentCol s - 1 := \<lparr>char = c, state = INITIAL\<rparr>]]\<rparr>"
  have t: "handleKeyInput c ?s1 = Inr ?s2"
    using assms row col colw by (simp add: handleKeyInput_def assignAt_def)
  from d t row col assms(3) show ?thesis by simp
qed

text \<open>Witness for C9: after typing C and R, delete and type A.\<close>

theorem delete_then_typeChar_witness:
  "wellFormed (typed ''CR'') \<and> gameStatus (typed ''CR'') = PLAYING \<and>
   0 < currentCol (typed ''CR'') \<and>
   (\<exists>s1 s2. handleDelete (typed ''CR'') = Inr s1 \<and> handleKeyInput ''A'' s1 = Inr s2 \<and>
      grid s2 ! currentRow s2 ! currentCol s1 = \<lparr>char = ''A'', state = INITIAL\<rparr> \<and>
      currentCol s2 = currentCol (typed ''CR''))"
proof -
  from delete_then_typeChar [OF typed_CR_facts, of "''A''"] obtain s1 s2 where
    "handleDelete (typed ''CR'') = Inr s1" and "handleKeyInput ''A'' s1 = Inr s2"
    and "grid s2 ! currentRow s2 ! currentCol s1 = \<lparr>char = ''A'', state = INITIAL\<rparr>"
    and "currentCol s2 = currentCol (typed ''CR'')"
    by blast
  with typed_CR_facts show ?thesis
    by blast
qed

text \<open>
  C10. In a well-formed PLAYING game with the cursor before the end of the row,
  \<open>handleKeyInput c\<close> ends normally, sets the tile at (currentRow, currentCol) to
  \<open>{char: c, state: INITIAL}\<close> and moves the cursor one column on; the secret word, the
  status, the current row, the hints, the toast, the colour mode, the shape of the grid
  and every other tile stay as they are.
\<close>

theorem typeChar_frame:
  assumes "wellFormed s" and "gameStatus s = PLAYING" and "currentCol s < WORD_LENGTH"
  shows "\<exists>s'. handleKeyInput c s = Inr s' \<and>
           grid s' ! currentRow s ! currentCol s = \<lparr>char = c, state = INITIAL\<rparr> \<and>
           currentCol s' = currentCol s + 1 \<and>
           secretWord s' = secretWord s \<and> gameStatus s' = gameStatus s \<and>
           currentRow s' = currentRow s \<and> letterStates s' = letterStates s \<and>
           shakeRow s' = shakeRow s \<and> message s' = message s \<and>
           isDarkMode s' = isDarkMode s \<and>
           length (grid s') = length (grid s) \<and>
           (\<forall>r < length (grid s). length (grid s' ! r) = length (grid s ! r) \<and>
              (\<forall>k < length (grid s ! r).
                 (r, k) \<noteq> (currentRow s, currentCol s) \<longrightarrow>
                 grid s' ! r ! k = grid s ! r ! k))"
proof -
  from assms have row: "currentRow s < length (grid s)"
    and col: "currentCol s < length (grid s ! currentRow s)"
    by (auto simp: wellFormed_def list_all_length)
  let ?s' = "s\<lparr>grid := (grid s)[currentRow s :=
                   (grid s ! currentRow s)[currentCol s := \<lparr>char = c, state = INITIAL\<rparr>]],
               currentCol := currentCol s + 1\<rparr>"
  have run: "handleKeyInput c s = Inr ?s'"
    using assms row col by (simp add: handleKeyInput_def assignAt_def)
  have "\<forall>r < length (grid s). length (grid ?s' ! r) = length (grid s ! r) \<and>
          (\<forall>k < length (grid s ! r).
             (r, k) \<noteq> (currentRow s, currentCol s) \<longrightarrow> grid ?s' ! r ! k = grid s ! r ! k)"
    using row by (auto simp: nth_list_update)
  with run row col show ?thesis by simp
qed

text \<open>
  Witness for C10: typing C into a fresh game sets tile (0, 0) and leaves tile (0, 1)
  alone.
\<close>

theorem typeChar_frame_witness:
  "wellFormed freshGame \<and> gameStatus freshGame = PLAYING \<and>
   currentCol freshGame < WORD_LENGTH \<and>
   (\<exists>s'. handleKeyInput ''C'' freshGame = Inr s' \<and>
      grid s' ! 0 ! 0 = \<lparr>char = ''C'', state = INITIAL\<rparr> \<and> currentCol s' = 1 \<and>
      grid s' ! 0 ! 1 = grid freshGame ! 0 ! 1)"
proof -
  have h: "currentCol freshGame < WORD_LENGTH"
    by (simp add: freshGame_facts WORD_LENGTH_def)
  from typeChar_frame [OF freshGame_facts(1,2) h, of "''C''"] obtain s' where
    run: "handleKeyInput ''C'' freshGame = Inr s'"
    and tile: "grid s' ! currentRow freshGame ! currentCol freshGame =
                 \<lparr>char = ''C'', state = INITIAL\<rparr>"
    and cur: "currentCol s' = currentCol freshGame + 1"
    and rest: "\<forall>r < length (grid freshGame).
                 length (grid s' ! r) = length (grid freshGame ! r) \<and>
                 (\<forall>k < length (grid freshGame ! r).
                    (r, k) \<noteq> (currentRow freshGame, currentCol freshGame) \<longrightarrow>
                    grid s' ! r ! k = grid freshGame ! r ! k)"
    by blast
  from rest have "grid s' ! 0 ! 1 = grid freshGame ! 0 ! 1"
    by (simp add: freshGame_facts)
  with run tile cur h freshGame_facts(1,2) show ?thesis
    by (simp add: freshGame_facts)
qed

subsection \<open>Keyboard hints\<close>

text \<open>
  C6. Whatever rows have been evaluated so far and whatever rows are evaluated later,
  the hint of every letter after the later rows is at least as informative (in the order
  INITIAL < ABSENT < PRESENT < CORRECT) as it was before them: a hint that is CORRECT
  stays CORRECT, and a hint that is PRESENT does not become ABSENT.
\<close>

theorem keyboard_hint_monotone:
  "informativeness (fold updateLetterStates rows m L)
     \<le> informativeness (fold updateLetterStates (rows @ later) m L) \<and>
   (fold updateLetterStates rows m L = Some CORRECT \<longrightarrow>
      fold updateLetterStates (rows @ later) m L = Some CORRECT) \<and>
   (fold updateLetterStates rows m L = Some PRESENT \<longrightarrow>
      fold updateLetterStates (rows @ later) m L \<noteq> Some ABSENT)"
proof -
  let ?a = "fold updateLetterStates rows m"
  let ?b = "fold updateLetterStates (rows @ later) m"
  have b: "?b = fold updateLetterStates later ?a"
    by simp
  have mono: "informativeness (?a L) \<le> informativeness (?b L)"
    unfolding b by (rule rows_mono)
  have c: "?a L = Some CORRECT \<longrightarrow> ?b L = Some CORRECT"
  proof
    assume "?a L = Some CORRECT"
    with mono have "3 \<le> informativeness (?b L)" by simp
    then show "?b L = Some CORRECT" by (simp only: informativeness_top)
  qed
  have p: "?a L = Some PRESENT \<longrightarrow> ?b L \<noteq> Some ABSENT"
  proof
    assume "?a L = Some PRESENT"
    with mono have "2 \<le> informativeness (?b L)" by simp
    then show "?b L \<noteq> Some ABSENT" by auto
  qed
  from mono c p show ?thesis by blast
qed

text \<open>
  Witness for C6: A is PRESENT in a first row and ABSENT in a second one, and CORRECT in a
  first row and ABSENT in a second one.
\<close>

theorem keyboard_hint_monotone_witness:
  "fold updateLetterStates [[\<lparr>char = ''A'', state = PRESENT\<rparr>]] Map.empty ''A'' = Some PRESENT \<and>
   fold updateLetterStates
     ([[\<lparr>char = ''A'', state = PRESENT\<rparr>]] @ [[\<lparr>char = ''A'', state = ABSENT\<rparr>]])
     Map.empty ''A'' \<noteq> Some ABSENT \<and>
   fold updateLetterStates [[\<lparr>char = ''A'', state = CORRECT\<rparr>]] Map.empty ''A'' = Some CORRECT \<and>
   fold updateLetterStates
     ([[\<lparr>char = ''A'', state = CORRECT\<rparr>]] @ [[\<lparr>char = ''A'', state = ABSENT\<rparr>]])
     Map.empty ''A'' = Some CORRECT"
proof -
  have p: "fold updateLetterStates [[\<lparr>char = ''A'', state = PRESENT\<rparr>]] Map.empty ''A''
             = Some PRESENT"
    by (simp add: updateLetterStates_def upgradeLetter_def)
  have c: "fold updateLetterStates [[\<lparr>char = ''A'', state = CORRECT\<rparr>]] Map.empty ''A''
             = Some CORRECT"
    by (simp add: updateLetterStates_def upgradeLetter_def)
  from keyboard_hint_monotone [of "[[\<lparr>char = ''A'', state = PRESENT\<rparr>]]" Map.empty "''A''"
      "[[\<lparr>char = ''A'', state = ABSENT\<rparr>]]"] p
  have "fold updateLetterStates
          ([[\<lparr>char = ''A'', state = PRESENT\<rparr>]] @ [[\<lparr>char = ''A'', state = ABSENT\<rparr>]])
          Map.empty ''A'' \<noteq> Some ABSENT"
    by blast
  moreover
  from keyboard_hint_monotone [of "[[\<lparr>char = ''A'', state = CORRECT\<rparr>]]" Map.empty "''A''"
      "[[\<lparr>char = ''A'', state = ABSENT\<rparr>]]"] c
  have "fold updateLetterStates
          ([[\<lparr>char = ''A'', state = CORRECT\<rparr>]] @ [[\<lparr>char = ''A'', state = ABSENT\<rparr>]])
          Map.empty ''A'' = Some CORRECT"
    by blast
  ultimately show ?thesis
    using p c by blast
qed

subsection \<open>Submitting\<close>

text \<open>
  C7. In a PLAYING game with the cursor before the end of the row, \<open>handleEnter\<close> returns
  before it reaches the call of the provider, whatever the provider is; the current row,
  the cursor, the grid, the status, the secret word and the hints are unchanged, and
  the toast Too short (with the shake) is all that is raised.
\<close>

theorem submit_too_short:
  assumes "gameStatus s = PLAYING" and "currentCol s < WORD_LENGTH"
  shows "handleEnter_begin s =
           Inr (Returned (s\<lparr>shakeRow := True, message := Some ''Too short''\<rparr>)) \<and>
         (\<exists>s'. handleEnter P s = Inr s' \<and>
            currentRow s' = currentRow s \<and> currentCol s' = currentCol s \<and>
            grid s' = grid s \<and> gameStatus s' = PLAYING \<and> secretWord s' = secretWord s \<and>
            letterStates s' = letterStates s \<and> isDarkMode s' = isDarkMode s \<and>
            shakeRow s' \<and> message s' = Some ''Too short'')"
  using assms by (simp add: handleEnter_def handleEnter_begin_def)

text \<open>Witness for C7: submitting after typing CAT.\<close>

theorem submit_too_short_witness:
  "gameStatus (typed ''CAT'') = PLAYING \<and> currentCol (typed ''CAT'') < WORD_LENGTH \<and>
   handleEnter_begin (typed ''CAT'') =
     Inr (Returned ((typed ''CAT'')\<lparr>shakeRow := True, message := Some ''Too short''\<rparr>))"
  using submit_too_short [OF typed_CAT_facts, of craneProvider] typed_CAT_facts
  by blast

text \<open>
  C8. In a well-formed PLAYING game with a full row whose guess the provider declares
  invalid, \<open>handleEnter\<close> suspends in status VALIDATING and, resumed with the answer, ends
  in status PLAYING with the toast Not a valid word (and the shake); the current row, the
  cursor, the grid, the secret word and the hints are unchanged.
\<close>

theorem word_rejected:
  assumes "wellFormed s" and "gameStatus s = PLAYING" and "currentCol s = WORD_LENGTH"
    and "validateWordExistence P (js_join (map char (grid s ! currentRow s))) = Some False"
  shows "\<exists>g v r. handleEnter_begin s = Inr (Awaiting g v) \<and> gameStatus v = VALIDATING \<and>
           handleEnter_resume False s g v = Inr r \<and> handleEnter P s = Inr r \<and>
           gameStatus r = PLAYING \<and> shakeRow r \<and> message r = Some ''Not a valid word'' \<and>
           currentRow r = currentRow s \<and> currentCol r = currentCol s \<and> grid r = grid s \<and>
           secretWord r = secretWord s \<and> letterStates r = letterStates s"
proof -
  from assms(1) have row: "currentRow s < length (grid s)"
    by (simp add: wellFormed_def)
  let ?g = "js_join (map char (grid s ! currentRow s))"
  have b: "handleEnter_begin s = Inr (Awaiting ?g (s\<lparr>gameStatus := VALIDATING\<rparr>))"
    using assms row by (simp add: handleEnter_begin_def)
  show ?thesis
    using assms(4) by (simp add: b handleEnter_def handleEnter_resume_def)
qed

text \<open>Witness for C8: QQQQQ, which the provider does not accept, typed and submitted.\<close>

theorem word_rejected_witness:
  "wellFormed (typed ''QQQQQ'') \<and> gameStatus (typed ''QQQQQ'') = PLAYING \<and>
   currentCol (typed ''QQQQQ'') = WORD_LENGTH \<and>
   validateWordExistence craneProvider
     (js_join (map char (grid (typed ''QQQQQ'') ! currentRow (typed ''QQQQQ'')))) = Some False \<and>
   (\<exists>r. handleEnter craneProvider (typed ''QQQQQ'') = Inr r \<and> gameStatus r = PLAYING \<and>
      message r = Some ''Not a valid word'' \<and> grid r = grid (typed ''QQQQQ'') \<and>
      currentRow r = currentRow (typed ''QQQQQ'') \<and>
      currentCol r = currentCol (typed ''QQQQQ''))"
proof -
  from word_rejected [OF typed_QQQQQ_facts] obtain r where
    "handleEnter craneProvider (typed ''QQQQQ'') = Inr r" and "gameStatus r = PLAYING"
    and "message r = Some ''Not a valid word''" and "grid r = grid (typed ''QQQQQ'')"
    and "currentRow r = currentRow (typed ''QQQQQ'')"
    and "currentCol r = currentCol (typed ''QQQQQ'')"
    by blast
  with typed_QQQQQ_facts show ?thesis
    by blast
qed

end
